theory Spec2Isabelle
  imports Complex_Main "HOL-Library.List_Lexorder" "HOL-Library.AList"
begin

section \<open>Values of the source language\<close>

text \<open>
  A Python \<open>str\<close> is a sequence of Unicode code points. A code point is a natural number
  and a string is a list of them; with the lexicographic order on lists this is the order
  Python's string comparison uses. An item (one emoji or one word) is such a string.
\<close>

type_synonym pychar = nat
type_synonym pystr = "pychar list"

datatype error = AttributeError | KeyError | ValueError | ZeroDivisionError

text \<open>
  The values the normalizer functions are called on: \<open>None\<close>, a number (pandas' NaN is
  one), a string, or a DataFrame. A DataFrame is represented by the cells of its
  \<open>content\<close> column, the only column the functions read or write, and by \<open>None\<close> when
  it has no such column.
\<close>

datatype pyval = PyNone | PyNum rat | PyStr pystr | PyFrame "pyval list option"

section \<open>Helpers for built-in operations\<close>

text \<open>\<open>str.isspace\<close> on one code point: the white space \<open>str.split()\<close> splits at.\<close>

definition isspace :: "pychar \<Rightarrow> bool" where
  "isspace c = (c \<in> {9, 10, 11, 12, 13, 28, 29, 30, 31, 32, 133, 160, 5760,
      8192, 8193, 8194, 8195, 8196, 8197, 8198, 8199, 8200, 8201, 8202,
      8232, 8233, 8239, 8287, 12288})"

text \<open>
  \<open>text.split()\<close> with no argument: the maximal runs of non-space characters, in order.
  \<open>cur\<close> is the word being read.
\<close>

fun split_from :: "pystr \<Rightarrow> pystr \<Rightarrow> pystr list" where
  "split_from cur [] = (if cur = [] then [] else [cur])"
| "split_from cur (c # cs) =
     (if isspace c then (if cur = [] then split_from [] cs else cur # split_from [] cs)
      else split_from (cur @ [c]) cs)"

definition split :: "pystr \<Rightarrow> pystr list" where
  "split s = split_from [] s"

text \<open>\<open>sep.join(words)\<close>.\<close>

fun join :: "pystr \<Rightarrow> pystr list \<Rightarrow> pystr" where
  "join sep [] = []"
| "join sep [w] = w"
| "join sep (w # v # ws) = w @ sep @ join sep (v # ws)"

text \<open>
  \<open>dict.fromkeys(xs)\<close> read back as a sequence: a dict keeps its keys in insertion order,
  and storing a key that is already there leaves its place unchanged. \<open>seen\<close> holds the
  keys inserted so far.
\<close>

fun fromkeys_from :: "'a list \<Rightarrow> 'a list \<Rightarrow> 'a list" where
  "fromkeys_from seen [] = seen"
| "fromkeys_from seen (x # xs) =
     (if x \<in> set seen then fromkeys_from seen xs else fromkeys_from (seen @ [x]) xs)"

definition fromkeys :: "'a list \<Rightarrow> 'a list" where
  "fromkeys xs = fromkeys_from [] xs"

text \<open>\<open>xs.index(x)\<close>: the first position of \<open>x\<close>; \<open>None\<close> stands for the ValueError.\<close>

fun index_of :: "'a list \<Rightarrow> 'a \<Rightarrow> nat option" where
  "index_of [] x = None"
| "index_of (y # ys) x = (if y = x then Some 0 else map_option Suc (index_of ys x))"

text \<open>Running a fallible function over a sequence stops at the first error.\<close>

fun traverse :: "('a \<Rightarrow> error + 'b) \<Rightarrow> 'a list \<Rightarrow> error + 'b list" where
  "traverse f [] = Inr []"
| "traverse f (x # xs) =
     (case f x of Inl e \<Rightarrow> Inl e
      | Inr y \<Rightarrow> (case traverse f xs of Inl e \<Rightarrow> Inl e | Inr ys \<Rightarrow> Inr (y # ys)))"

section \<open>Text normalizer (trolldata\_utils.py)\<close>

text \<open>
  \<open>emoji.EMOJI_DATA\<close> is a table of the \<open>emoji\<close> package, keyed by emoji strings. It is a
  parameter \<open>E\<close>, the set of its keys; \<open>c in emoji.EMOJI_DATA\<close> for a character \<open>c\<close> asks
  whether the one-character string is a key.
\<close>

definition is_emoji :: "pystr set \<Rightarrow> pychar \<Rightarrow> bool" where
  "is_emoji E c = ([c] \<in> E)"

text \<open>\<open>''.join(c for c in x if c in emoji.EMOJI_DATA)\<close>\<close>

definition keep_emoji :: "pystr set \<Rightarrow> pystr \<Rightarrow> pystr" where
  "keep_emoji E x = filter (is_emoji E) x"

text \<open>
  \<open>emoji_only\<close>: a string is handled directly; anything else is taken to be a DataFrame
  and \<open>input_data.copy()\<close> is called on it, which \<open>None\<close> and numbers do not have.
  On a DataFrame, \<open>df['content']\<close> raises KeyError when there is no such column.
\<close>

fun emoji_only :: "pystr set \<Rightarrow> pyval \<Rightarrow> error + pyval" where
  "emoji_only E (PyStr s) = Inr (PyStr (keep_emoji E s))"
| "emoji_only E (PyFrame (Some cells)) =
     Inr (PyFrame (Some (map (\<lambda>x. case x of PyStr s \<Rightarrow> PyStr (keep_emoji E s) | _ \<Rightarrow> PyStr [])
                          cells)))"
| "emoji_only E (PyFrame None) = Inl KeyError"
| "emoji_only E _ = Inl AttributeError"

text \<open>The loop body of \<open>process_text\<close>: one word of the split text.\<close>

definition process_word :: "pystr set \<Rightarrow> pystr \<Rightarrow> pystr" where
  "process_word E word = (if list_all (is_emoji E) word then fromkeys word else word)"

fun process_text :: "pystr set \<Rightarrow> pyval \<Rightarrow> pystr" where
  "process_text E (PyStr text) = join [32] (fromkeys (map (process_word E) (split text)))"
| "process_text E _ = []"

fun unique_vals :: "pystr set \<Rightarrow> pyval \<Rightarrow> error + pyval" where
  "unique_vals E (PyStr s) = Inr (PyStr (process_text E (PyStr s)))"
| "unique_vals E (PyFrame (Some cells)) =
     Inr (PyFrame (Some (map (\<lambda>x. PyStr (process_text E x)) cells)))"
| "unique_vals E (PyFrame None) = Inl KeyError"
| "unique_vals E _ = Inl AttributeError"

text \<open>\<open>isinstance(x, str)\<close>\<close>

fun is_str :: "pyval \<Rightarrow> bool" where
  "is_str (PyStr s) = True"
| "is_str _ = False"

section \<open>Transaction builder (emoji\_market\_basket.py, emoji\_word\_market\_basket.py)\<close>

text \<open>
  A DataFrame of booleans: the column labels and the rows of the matrix. The row labels
  are the positions \<open>0, 1, ...\<close> and are not stored.
\<close>

record 'a dataframe =
  columns :: "'a list"
  matrix :: "bool list list"

subsection \<open>The one-hot matrix\<close>

text \<open>
  \<open>MultiLabelBinarizer(sparse_output=False).fit_transform(transactions)\<close> belongs to
  scikit-learn. It is modelled as that library computes it. \<open>class_mapping\<close> is a
  defaultdict whose default value for a new label is the number of labels stored so far;
  it is represented by the list of its labels, a label's value being its position.
  Reading \<open>class_mapping[label]\<close> returns that value and, for a new label, stores it.
\<close>

definition class_mapping_get :: "'a list \<Rightarrow> 'a \<Rightarrow> 'a list \<times> nat" where
  "class_mapping_get class_mapping label =
     (case index_of class_mapping label of
        Some k \<Rightarrow> (class_mapping, k)
      | None \<Rightarrow> (class_mapping @ [label], length class_mapping))"

text \<open>The inner loop: the set \<open>index\<close> of the column numbers of one row's labels.\<close>

fun transform_labels :: "'a list \<Rightarrow> 'a list \<Rightarrow> 'a list \<times> nat set" where
  "transform_labels class_mapping [] = (class_mapping, {})"
| "transform_labels class_mapping (label # labels) =
     (case class_mapping_get class_mapping label of (cm1, k) \<Rightarrow>
        (case transform_labels cm1 labels of (cm2, index) \<Rightarrow> (cm2, insert k index)))"

text \<open>The outer loop over the rows.\<close>

fun transform :: "'a list \<Rightarrow> 'a list list \<Rightarrow> 'a list \<times> nat set list" where
  "transform class_mapping [] = (class_mapping, [])"
| "transform class_mapping (labels # y) =
     (case transform_labels class_mapping labels of (cm1, index) \<Rightarrow>
        (case transform cm1 y of (cm2, yt) \<Rightarrow> (cm2, index # yt)))"

text \<open>The position of \<open>x\<close> in \<open>xs\<close>, for an \<open>x\<close> that occurs in \<open>xs\<close>.\<close>

definition position :: "'a list \<Rightarrow> 'a \<Rightarrow> nat" where
  "position xs x = length (takeWhile (\<lambda>y. y \<noteq> x) xs)"

text \<open>
  After the rows are read, the labels are sorted (\<open>np.unique\<close>: sorted, without
  repetitions), the column numbers are renamed by the inverse permutation, and the sparse
  rows are made dense. The first component is \<open>classes_\<close>.
\<close>

definition fit_transform :: "'a::linorder list list \<Rightarrow> 'a list \<times> bool list list" where
  "fit_transform y =
     (case transform [] y of (class_mapping, yt) \<Rightarrow>
        let classes = sort (remdups class_mapping);
            inverse = map (position classes) class_mapping
        in (classes,
            map (\<lambda>index. map (\<lambda>j. j \<in> (\<lambda>k. inverse ! k) ` index) [0..<length classes]) yt))"

text \<open>\<open>pd.DataFrame(onehot_data, columns=mlb.classes_).astype(bool)\<close>\<close>

definition onehot :: "'a::linorder list list \<Rightarrow> 'a dataframe" where
  "onehot transactions =
     (case fit_transform transactions of (classes, onehot_data) \<Rightarrow>
        \<lparr>columns = classes, matrix = onehot_data\<rparr>)"

subsection \<open>Emoji-only variant\<close>

text \<open>
  \<open>prepare_emoji_data\<close>. Its input \<open>data\<close> is the \<open>content\<close> column as
  \<open>load_troll_dataset\<close> returns it. \<open>list(set(x))\<close> lists the distinct characters of
  \<open>x\<close> in the iteration order of a Python set, which the language leaves open: that order
  is the parameter \<open>set_order\<close>.
\<close>

definition emoji_items :: "(pystr set \<Rightarrow> pystr list) \<Rightarrow> pyval \<Rightarrow> pystr list" where
  "emoji_items set_order x =
     (case x of PyStr s \<Rightarrow> set_order (set (map (\<lambda>c. [c]) s)) | _ \<Rightarrow> [])"

definition prepare_emoji_data ::
  "pystr set \<Rightarrow> (pystr set \<Rightarrow> pystr list) \<Rightarrow> bool \<Rightarrow> pyval list \<Rightarrow> error + pystr dataframe" where
  "prepare_emoji_data E set_order test_mode data =
     (case traverse (emoji_only E) data of
        Inl e \<Rightarrow> Inl e
      | Inr emoji_series \<Rightarrow>
          let emoji_series = (if test_mode then take 100 emoji_series else emoji_series);
              transactions = map (emoji_items set_order) emoji_series
          in Inr (onehot transactions))"

subsection \<open>Word and emoji variant\<close>

text \<open>\<open>item_counts[item] = item_counts.get(item, 0) + 1\<close> on a dict kept as an association list.\<close>

definition count_item :: "('a \<times> nat) list \<Rightarrow> 'a \<Rightarrow> ('a \<times> nat) list" where
  "count_item item_counts item =
     AList.update item ((case map_of item_counts item of None \<Rightarrow> 0 | Some n \<Rightarrow> n) + 1) item_counts"

definition item_counts_of :: "'a list list \<Rightarrow> ('a \<times> nat) list" where
  "item_counts_of transactions =
     fold (\<lambda>transaction item_counts. fold (\<lambda>item counts. count_item counts item) transaction item_counts)
       transactions []"

text \<open>\<open>int(x)\<close> on a float: truncation towards zero.\<close>

definition pyint :: "rat \<Rightarrow> int" where
  "pyint x = (if 0 \<le> x then \<lfloor>x\<rfloor> else \<lceil>x\<rceil>)"

text \<open>
  \<open>int(min_support * total_transactions)\<close>. A float is modelled by the rational number it
  denotes; \<open>fl\<close> is the rounding of the product to a float, the identity when the product
  is computed exactly.
\<close>

definition min_count_of :: "(rat \<Rightarrow> rat) \<Rightarrow> rat \<Rightarrow> nat \<Rightarrow> int" where
  "min_count_of fl min_support total_transactions =
     pyint (fl (min_support * of_nat total_transactions))"

definition frequent_items_of :: "('a \<times> nat) list \<Rightarrow> int \<Rightarrow> 'a set" where
  "frequent_items_of item_counts min_count =
     set (map fst (filter (\<lambda>(item, count). min_count \<le> int count) item_counts))"

definition filtered_transactions :: "(rat \<Rightarrow> rat) \<Rightarrow> rat \<Rightarrow> 'a list list \<Rightarrow> 'a list list" where
  "filtered_transactions fl min_support transactions =
     (let item_counts = item_counts_of transactions;
          total_transactions = length transactions;
          min_count = min_count_of fl min_support total_transactions;
          frequent_items = frequent_items_of item_counts min_count
      in map (\<lambda>transaction. filter (\<lambda>item. item \<in> frequent_items) transaction) transactions)"

definition word_items :: "pyval \<Rightarrow> pystr list" where
  "word_items x = (case x of PyStr s \<Rightarrow> split s | _ \<Rightarrow> [])"

text \<open>
  \<open>prepare_emoji_word_data\<close>. Its input \<open>data\<close> is the \<open>content\<close> column after
  \<open>load_troll_dataset\<close> and \<open>remove_links\<close>.
\<close>

definition prepare_emoji_word_data ::
  "pystr set \<Rightarrow> (rat \<Rightarrow> rat) \<Rightarrow> bool \<Rightarrow> rat \<Rightarrow> pyval list \<Rightarrow> error + pystr dataframe" where
  "prepare_emoji_word_data E fl test_mode min_support data =
     (let data = (if test_mode then take 100 data else data)
      in case traverse (unique_vals E) data of
           Inl e \<Rightarrow> Inl e
         | Inr processed_content \<Rightarrow>
             let transactions = map word_items processed_content
             in Inr (onehot (filtered_transactions fl min_support transactions)))"

text \<open>
  The vocabulary in the order in which the builder first meets each item while it reads
  the transactions one after the other.
\<close>

definition first_encounter_order :: "'a list list \<Rightarrow> 'a list" where
  "first_encounter_order transactions = fromkeys (concat transactions)"

section \<open>Pipeline driver (market\_basket\_analyzer)\<close>

text \<open>
  A row of the rule table: its columns \<open>antecedents\<close> and \<open>consequents\<close> hold frozensets
  of items, the metrics are floats. The number type \<open>'n\<close> is left open: the filter only
  adds, subtracts and compares.
\<close>

record ('i, 'n) rule =
  antecedents :: "'i set"
  consequents :: "'i set"
  rule_support :: 'n
  rule_confidence :: 'n
  lift :: 'n

text \<open>
  A table is modelled by the sequence of its rows; a rule table carries the index label
  of each row.
\<close>

type_synonym ('i, 'n) rules = "(nat \<times> ('i, 'n) rule) list"

text \<open>The table of frequent itemsets: columns \<open>support\<close> and \<open>itemsets\<close>.\<close>

type_synonym ('i, 'n) frequent_itemsets = "('n \<times> 'i set) list"

text \<open>The calls to the mining library that a run makes, in order.\<close>

datatype call = CallFpgrowth | CallAssociationRules

text \<open>\<open>rules[mask]\<close>: the rows whose mask entry is true, labels kept.\<close>

definition select_rows :: "'r list \<Rightarrow> bool list \<Rightarrow> 'r list" where
  "select_rows rows keep = map fst (filter snd (zip rows keep))"

definition lift_filter ::
  "bool \<Rightarrow> 'n::{one,plus,minus,ord} \<Rightarrow> ('i, 'n) rules \<Rightarrow> ('i, 'n) rules" where
  "lift_filter find_negative_correlations lift_distance rules =
     (if find_negative_correlations then
        let lift_mask = map (\<lambda>row. 1 + lift_distance \<le> lift (snd row) \<or> lift (snd row) \<le> 1 - lift_distance) rules
        in select_rows rules lift_mask
      else
        let lift_mask = map (\<lambda>row. 1 + lift_distance \<le> lift (snd row)) rules
        in select_rows rules lift_mask)"

definition check_duplicate :: "('i, 'n) rules \<Rightarrow> nat \<times> ('i, 'n) rule \<Rightarrow> error + bool" where
  "check_duplicate rules row =
     (let idx = fst row;
          index_list = map fst rules
      in case index_of index_list idx of
           None \<Rightarrow> Inl ValueError
         | Some current_pos \<Rightarrow>
             if current_pos > 0 then
               let prev_row = snd (rules ! (current_pos - 1))
               in Inr (antecedents (snd row) = consequents prev_row \<and>
                       consequents (snd row) = antecedents prev_row)
             else Inr False)"

definition remove_duplicates :: "('i, 'n) rules \<Rightarrow> error + ('i, 'n) rules" where
  "remove_duplicates rules =
     (case traverse (check_duplicate rules) rules of
        Inl e \<Rightarrow> Inl e
      | Inr dup_mask \<Rightarrow> Inr (select_rows rules (map Not dup_mask)))"

text \<open>
  \<open>progress_apply\<close> (tqdm) first computes the length of its progress bar; for \<open>axis=1\<close>
  this is \<open>df.size // df.shape[1]\<close>, the number of cells of the table divided by the number
  of its columns.
\<close>

definition progress_total :: "nat \<Rightarrow> nat \<Rightarrow> error + nat" where
  "progress_total n_rows n_columns =
     (if n_columns = 0 then Inl ZeroDivisionError else Inr ((n_rows * n_columns) div n_columns))"

text \<open>
  The number of columns of the table that \<open>association_rules\<close> returns. The model keeps
  five of them; what matters is that there is at least one.
\<close>

definition rule_columns :: nat where
  "rule_columns = 5"

text \<open>
  The number of columns left by \<open>rules = rules[mask]\<close> after the lift filter. On a table
  without rows, pandas' \<open>apply\<close> has no row to call the lambda on and returns an empty
  Series of floats instead of a boolean mask; indexing with it selects the columns it
  names, which are none. On a table with rows the mask is boolean and the columns stay.
\<close>

definition columns_after_lift_filter :: "'r list \<Rightarrow> nat \<Rightarrow> nat" where
  "columns_after_lift_filter rules n_columns = (if rules = [] then 0 else n_columns)"

text \<open>The returned dict, with its keys \<open>itemsets\<close> and \<open>rules\<close>.\<close>

record ('i, 'n) mba =
  itemsets :: "('i, 'n) frequent_itemsets"
  rules :: "('i, 'n) rules"

text \<open>
  \<open>market_basket_analyzer\<close>. \<open>fpgrowth\<close> and \<open>association_rules\<close> belong to mlxtend and
  are parameters; either may raise. \<open>association_rules\<close> returns its rows labelled
  \<open>0, 1, ...\<close>. Each of the two \<open>progress_apply\<close> calls computes its total before it
  applies its function; the second one runs on the table the lift filter left, which has
  no column when \<open>association_rules\<close> returned no row, and then raises ZeroDivisionError.
  The result pairs the library calls made with the returned dict or the error.
\<close>

definition market_basket_analyzer ::
  "('i dataframe \<Rightarrow> 'n \<Rightarrow> error + ('i, 'n) frequent_itemsets) \<Rightarrow>
   (('i, 'n) frequent_itemsets \<Rightarrow> nat \<Rightarrow> 'n \<Rightarrow> error + ('i, 'n) rule list) \<Rightarrow>
   'i dataframe \<Rightarrow> 'n::{one,plus,minus,ord} \<Rightarrow> 'n \<Rightarrow> 'n \<Rightarrow> bool \<Rightarrow>
   call list \<times> (error + ('i, 'n) mba)" where
  "market_basket_analyzer fpgrowth association_rules onehot_df support confidence lift_distance
       find_negative_correlations =
     (case fpgrowth onehot_df support of
        Inl e \<Rightarrow> ([CallFpgrowth], Inl e)
      | Inr frequent_itemsets \<Rightarrow>
          if frequent_itemsets = [] then
            ([CallFpgrowth], Inr \<lparr>itemsets = [], rules = []\<rparr>)
          else
            (case association_rules frequent_itemsets (length frequent_itemsets) confidence of
               Inl e \<Rightarrow> ([CallFpgrowth, CallAssociationRules], Inl e)
             | Inr generated \<Rightarrow>
                 let rules0 = zip [0..<length generated] generated
                 in (case progress_total (length rules0) rule_columns of
                       Inl e \<Rightarrow> ([CallFpgrowth, CallAssociationRules], Inl e)
                     | Inr total0 \<Rightarrow>
                         let rules1 = lift_filter find_negative_correlations lift_distance rules0;
                             columns1 = columns_after_lift_filter rules0 rule_columns
                         in (case progress_total (length rules1) columns1 of
                               Inl e \<Rightarrow> ([CallFpgrowth, CallAssociationRules], Inl e)
                             | Inr total1 \<Rightarrow>
                                 (case remove_duplicates rules1 of
                                    Inl e \<Rightarrow> ([CallFpgrowth, CallAssociationRules], Inl e)
                                  | Inr rules2 \<Rightarrow>
                                      ([CallFpgrowth, CallAssociationRules],
                                       Inr \<lparr>itemsets = frequent_itemsets, rules = rules2\<rparr>))))))"

text \<open>
  The spec's reading of the deduplication: a rule is compared with the last rule that
  was retained before it. \<open>prev\<close> is that rule, if any.
\<close>

fun dedup_surviving :: "('i, 'n) rule option \<Rightarrow> ('i, 'n) rules \<Rightarrow> ('i, 'n) rules" where
  "dedup_surviving prev [] = []"
| "dedup_surviving prev (row # rows) =
     (case prev of
        None \<Rightarrow> row # dedup_surviving (Some (snd row)) rows
      | Some p \<Rightarrow>
          if antecedents (snd row) = consequents p \<and> consequents (snd row) = antecedents p
          then dedup_surviving prev rows
          else row # dedup_surviving (Some (snd row)) rows)"

text \<open>What the thresholds of a well-formed configuration satisfy.\<close>

definition valid_config :: "rat \<Rightarrow> rat \<Rightarrow> rat \<Rightarrow> bool" where
  "valid_config support confidence lift_distance =
     (0 \<le> support \<and> support \<le> 1 \<and> 0 \<le> confidence \<and> confidence \<le> 1 \<and> 0 \<le> lift_distance)"

subsection \<open>A reference miner and rule generator\<close>

text \<open>
  Modelled from the spec: the Itemset Miner and the Rule Generator are mlxtend's
  \<open>fpgrowth\<close> and \<open>association_rules\<close>, which the repository calls and does not contain.
  The two functions below follow the spec's contracts for them (sections 3, 4.3 and 4.4)
  by enumeration and serve as instances of the two parameters of
  \<open>market_basket_analyzer\<close>. The support of an itemset is the fraction of the
  transactions that contain all its items; a table without transactions has no frequent
  itemsets.
\<close>

definition contains_all :: "'a list \<Rightarrow> 'a list \<Rightarrow> bool list \<Rightarrow> bool" where
  "contains_all cols S row = list_all (\<lambda>(c, b). c \<in> set S \<longrightarrow> b) (zip cols row)"

definition itemset_support :: "'a dataframe \<Rightarrow> 'a list \<Rightarrow> rat" where
  "itemset_support oh S =
     of_nat (length (filter (contains_all (columns oh) S) (matrix oh))) / of_nat (length (matrix oh))"

definition mine :: "'a dataframe \<Rightarrow> rat \<Rightarrow> error + ('a, rat) frequent_itemsets" where
  "mine oh min_support =
     (if matrix oh = [] then Inr []
      else Inr (map (\<lambda>S. (itemset_support oh S, set S))
                  (filter (\<lambda>S. S \<noteq> [] \<and> min_support \<le> itemset_support oh S) (subseqs (columns oh)))))"

definition support_of :: "('a, rat) frequent_itemsets \<Rightarrow> 'a set \<Rightarrow> rat" where
  "support_of fis S = (case map_of (map (\<lambda>(s, T). (T, s)) fis) S of None \<Rightarrow> 0 | Some s \<Rightarrow> s)"

text \<open>
  Confidence is the support of the whole itemset over that of the antecedent, lift is the
  confidence over the support of the consequent. A split is kept when both parts have a
  known positive support and the confidence reaches the threshold.
\<close>

definition split_rule :: "('a, rat) frequent_itemsets \<Rightarrow> rat \<Rightarrow> 'a set \<Rightarrow> 'a list \<Rightarrow> ('a, rat) rule" where
  "split_rule fis s S A =
     \<lparr>antecedents = set A, consequents = S - set A, rule_support = s,
      rule_confidence = s / support_of fis (set A),
      lift = s / support_of fis (set A) / support_of fis (S - set A)\<rparr>"

definition generate ::
  "('a::linorder, rat) frequent_itemsets \<Rightarrow> nat \<Rightarrow> rat \<Rightarrow> error + ('a, rat) rule list" where
  "generate fis num_itemsets min_confidence =
     Inr (concat (map (\<lambda>(s, S).
            map (split_rule fis s S)
              (filter (\<lambda>A. A \<noteq> [] \<and> set A \<noteq> S \<and> 0 < support_of fis (set A) \<and>
                           0 < support_of fis (S - set A) \<and>
                           min_confidence \<le> s / support_of fis (set A))
                 (subseqs (sorted_list_of_set S)))) fis))"

subsection \<open>Notions used in the statements and proofs\<close>

text \<open>The column numbers, under a class mapping, of the labels of one row.\<close>

definition row_index :: "'a list \<Rightarrow> 'a list \<Rightarrow> nat set" where
  "row_index cm labels = {k. k < length cm \<and> cm ! k \<in> set labels}"

text \<open>A word as \<open>split\<close> produces it: not empty and free of white space.\<close>

definition word_ok :: "pystr \<Rightarrow> bool" where
  "word_ok w = (w \<noteq> [] \<and> list_all (\<lambda>c. \<not> isspace c) w)"

text \<open>A rule is the mirror of another: antecedent and consequent are exchanged.\<close>

definition mirror :: "('i, 'n) rule \<Rightarrow> ('i, 'n) rule \<Rightarrow> bool" where
  "mirror r p = (antecedents r = consequents p \<and> consequents r = antecedents p)"

text \<open>The lift band of the filter.\<close>

definition lift_keeps :: "bool \<Rightarrow> 'n::{one,plus,minus,ord} \<Rightarrow> ('i, 'n) rule \<Rightarrow> bool" where
  "lift_keeps include_negative lift_distance r =
     (if include_negative then 1 + lift_distance \<le> lift r \<or> lift r \<le> 1 - lift_distance
      else 1 + lift_distance \<le> lift r)"

subsection \<open>Example data\<close>

text \<open>
  The rules \<open>a \<rightarrow> b\<close> and \<open>b \<rightarrow> a\<close>; the presence matrix of the transactions
  \<open>{x, y}, {x, y}, {x}, {y}\<close>, its itemsets of support at least 1/2 and the two rules
  they give.
\<close>

definition example_ab :: "(pystr, rat) rule" where
  "example_ab = \<lparr>antecedents = {[97]}, consequents = {[98]}, rule_support = 1/2, rule_confidence = 1, lift = 2\<rparr>"

definition example_ba :: "(pystr, rat) rule" where
  "example_ba = \<lparr>antecedents = {[98]}, consequents = {[97]}, rule_support = 1/2, rule_confidence = 1, lift = 2\<rparr>"

definition example_onehot :: "pystr dataframe" where
  "example_onehot = \<lparr>columns = [[120], [121]],
      matrix = [[True, True], [True, True], [True, False], [False, True]]\<rparr>"

definition example_xy :: "(pystr, rat) rule" where
  "example_xy = \<lparr>antecedents = {[120]}, consequents = {[121]}, rule_support = 1/2,
      rule_confidence = 2/3, lift = 8/9\<rparr>"

definition example_yx :: "(pystr, rat) rule" where
  "example_yx = \<lparr>antecedents = {[121]}, consequents = {[120]}, rule_support = 1/2,
      rule_confidence = 2/3, lift = 8/9\<rparr>"

definition example_itemsets :: "(pystr, rat) frequent_itemsets" where
  "example_itemsets = [(1/2, {[120], [121]}), (3/4, {[120]}), (3/4, {[121]})]"

section \<open>Properties of the helpers\<close>

lemma set_fromkeys_from: "set (fromkeys_from seen xs) = set seen \<union> set xs"
  by (induction xs arbitrary: seen) auto

lemma distinct_fromkeys_from: "distinct seen \<Longrightarrow> distinct (fromkeys_from seen xs)"
  by (induction xs arbitrary: seen) auto

lemma fromkeys_from_distinct:
  "distinct (seen @ xs) \<Longrightarrow> fromkeys_from seen xs = seen @ xs"
  by (induction xs arbitrary: seen) auto

lemma set_fromkeys: "set (fromkeys xs) = set xs"
  by (simp add: fromkeys_def set_fromkeys_from)

lemma distinct_fromkeys: "distinct (fromkeys xs)"
  by (simp add: fromkeys_def distinct_fromkeys_from)

lemma fromkeys_distinct: "distinct xs \<Longrightarrow> fromkeys xs = xs"
  using fromkeys_from_distinct [of "[]" xs] by (simp add: fromkeys_def)

lemma fromkeys_idem: "fromkeys (fromkeys xs) = fromkeys xs"
  by (simp add: fromkeys_distinct distinct_fromkeys)

section \<open>Properties of the text normalizer\<close>

lemma isspace_32: "isspace 32"
  by (simp add: isspace_def)

lemma split_from_words:
  "list_all (\<lambda>c. \<not> isspace c) cur \<Longrightarrow> list_all word_ok (split_from cur s)"
  by (induction s arbitrary: cur) (auto simp: word_ok_def)

lemma split_words: "list_all word_ok (split s)"
  by (simp add: split_def split_from_words)

lemma split_from_append:
  "list_all (\<lambda>c. \<not> isspace c) w \<Longrightarrow> split_from cur (w @ rest) = split_from (cur @ w) rest"
  by (induction w arbitrary: cur) auto

lemma split_from_join:
  "list_all word_ok ws \<Longrightarrow> split_from [] (join [32] ws) = ws"
proof (induction ws)
  case Nil
  then show ?case by simp
next
  case (Cons w ws)
  from Cons.prems have w: "w \<noteq> []" "list_all (\<lambda>c. \<not> isspace c) w"
    by (simp_all add: word_ok_def)
  from Cons.prems have ws: "list_all word_ok ws" by simp
  show ?case
  proof (cases ws)
    case Nil
    then show ?thesis using w split_from_append [of w "[]" "[]"] by simp
  next
    case (Cons v vs)
    have "split_from [] (join [32] (w # ws)) = split_from w (32 # join [32] ws)"
      using w split_from_append [of w "[]" "32 # join [32] ws"] Cons by simp
    also have "\<dots> = w # split_from [] (join [32] ws)"
      using w by (simp add: isspace_32)
    finally show ?thesis using Cons.IH ws by simp
  qed
qed

lemma split_join: "list_all word_ok ws \<Longrightarrow> split (join [32] ws) = ws"
  by (simp add: split_def split_from_join)

lemma process_word_ok: "word_ok w \<Longrightarrow> word_ok (process_word E w)"
  using set_fromkeys [of w]
  by (auto simp: word_ok_def process_word_def list_all_iff)

lemma process_word_idem: "process_word E (process_word E w) = process_word E w"
  using set_fromkeys [of w]
  by (auto simp: process_word_def list_all_iff fromkeys_idem)

lemma process_text_idem:
  "process_text E (PyStr (process_text E (PyStr s))) = process_text E (PyStr s)"
proof -
  define ws where "ws = fromkeys (map (process_word E) (split s))"
  have ok: "list_all word_ok ws"
    using split_words [of s] by (auto simp: ws_def list_all_iff set_fromkeys process_word_ok)
  have fixed: "map (process_word E) ws = ws"
    by (rule map_idI) (auto simp: ws_def set_fromkeys process_word_idem)
  have "distinct ws" by (simp add: ws_def distinct_fromkeys)
  then have "fromkeys ws = ws" by (rule fromkeys_distinct)
  with ok fixed show ?thesis by (simp add: ws_def [symmetric] split_join)
qed

section \<open>Claims about the text normalizer\<close>

text \<open>
  Claim C10. \<open>unique_vals\<close> is idempotent on strings: applied to a string it returns a
  string \<open>r\<close> on which a second application returns \<open>r\<close> again. In \<open>r\<close> every
  whitespace-delimited word occurs once, and every word made of emoji only has each of
  its characters once.
\<close>

theorem unique_vals_idempotent:
  "\<exists>r. unique_vals E (PyStr s) = Inr (PyStr r) \<and>
       unique_vals E (PyStr r) = Inr (PyStr r) \<and>
       distinct (split r) \<and>
       list_all (\<lambda>w. list_all (is_emoji E) w \<longrightarrow> distinct w) (split r)"
proof -
  define ws where "ws = fromkeys (map (process_word E) (split s))"
  define r where "r = process_text E (PyStr s)"
  have ok: "list_all word_ok ws"
    using split_words [of s] by (auto simp: ws_def list_all_iff set_fromkeys process_word_ok)
  have r: "split r = ws"
    using ok by (simp add: r_def ws_def [symmetric] split_join)
  have d: "distinct ws" by (simp add: ws_def distinct_fromkeys)
  have pw: "list_all (is_emoji E) (process_word E w) \<longrightarrow> distinct (process_word E w)" for w
    by (simp add: process_word_def distinct_fromkeys)
  have e: "list_all (\<lambda>w. list_all (is_emoji E) w \<longrightarrow> distinct w) ws"
    unfolding ws_def using pw by (auto simp: list_all_iff set_fromkeys)
  show ?thesis
    using r d e process_text_idem [of E s] by (auto simp: r_def)
qed

theorem unique_vals_idempotent_witness:
  "unique_vals {[128522]} (PyStr [104, 105, 32, 104, 105, 32, 128522, 128522, 32, 128522])
     = Inr (PyStr [104, 105, 32, 128522]) \<and>
   unique_vals {[128522]} (PyStr [104, 105, 32, 128522]) = Inr (PyStr [104, 105, 32, 128522]) \<and>
   split [104, 105, 32, 128522] = [[104, 105], [128522]]"
proof -
  have v: "process_text {[128522]} (PyStr [104, 105, 32, 104, 105, 32, 128522, 128522, 32, 128522])
      = [104, 105, 32, 128522]"
    by (simp add: split_def isspace_def process_word_def is_emoji_def fromkeys_def)
  have s: "split [104, 105, 32, 128522] = [[104, 105], [128522]]"
    by (simp add: split_def isspace_def)
  from unique_vals_idempotent [of "{[128522]}" "[104, 105, 32, 104, 105, 32, 128522, 128522, 32, 128522]"]
  show ?thesis using v s by auto
qed

text \<open>
  Claim C3, as stated, fails: called on \<open>None\<close> or on a number (NaN is one),
  \<open>emoji_only\<close> and \<open>unique_vals\<close> take the DataFrame branch and raise AttributeError
  at \<open>input_data.copy()\<close>. The builders call them on each record, so a record that is
  not a string makes the builder raise as well, and no empty item list is reached.
\<close>

theorem normalizer_null_raises:
  "emoji_only {[128522]} PyNone = Inl AttributeError \<and>
   unique_vals {[128522]} PyNone = Inl AttributeError \<and>
   emoji_only {[128522]} (PyNum 0) = Inl AttributeError \<and>
   unique_vals {[128522]} (PyNum 0) = Inl AttributeError \<and>
   prepare_emoji_data {[128522]} sorted_list_of_set False [PyNone] = Inl AttributeError \<and>
   prepare_emoji_word_data {[128522]} id False 0 [PyNone] = Inl AttributeError"
  by (simp add: prepare_emoji_data_def prepare_emoji_word_data_def)

text \<open>
  Claim C3, amended. On a DataFrame that has a \<open>content\<close> column, both functions return
  without raising a DataFrame whose \<open>content\<close> column has the same number of cells, and
  every cell that was null or not a string is the empty string in it.
\<close>

theorem normalizer_frame_cells:
  "\<exists>out1 out2.
     emoji_only E (PyFrame (Some cells)) = Inr (PyFrame (Some out1)) \<and>
     unique_vals E (PyFrame (Some cells)) = Inr (PyFrame (Some out2)) \<and>
     length out1 = length cells \<and> length out2 = length cells \<and>
     (\<forall>i < length cells. \<not> is_str (cells ! i) \<longrightarrow>
        out1 ! i = PyStr [] \<and> out2 ! i = PyStr [])"
proof -
  have a: "\<not> is_str x \<Longrightarrow> (case x of PyStr s \<Rightarrow> PyStr (keep_emoji E s) | _ \<Rightarrow> PyStr []) = PyStr []" for x
    by (cases x) simp_all
  have b: "\<not> is_str x \<Longrightarrow> process_text E x = []" for x
    by (cases x) simp_all
  show ?thesis by (simp add: a b)
qed

theorem normalizer_frame_cells_witness:
  "emoji_only {[128522]} (PyFrame (Some [PyNone, PyStr [104, 128522], PyNum 0]))
     = Inr (PyFrame (Some [PyStr [], PyStr [128522], PyStr []])) \<and>
   unique_vals {[128522]} (PyFrame (Some [PyNone, PyStr [104, 128522], PyNum 0]))
     = Inr (PyFrame (Some [PyStr [], PyStr [104, 128522], PyStr []]))"
proof -
  from normalizer_frame_cells [of "{[128522]}" "[PyNone, PyStr [104, 128522], PyNum 0]"]
  obtain out1 out2 where
    o: "emoji_only {[128522]} (PyFrame (Some [PyNone, PyStr [104, 128522], PyNum 0]))
          = Inr (PyFrame (Some out1))"
       "unique_vals {[128522]} (PyFrame (Some [PyNone, PyStr [104, 128522], PyNum 0]))
          = Inr (PyFrame (Some out2))"
    by blast
  have "out1 = [PyStr [], PyStr [128522], PyStr []]"
    using o(1) by (simp add: keep_emoji_def is_emoji_def)
  moreover have "out2 = [PyStr [], PyStr [104, 128522], PyStr []]"
    using o(2) by (simp add: split_def isspace_def process_word_def is_emoji_def fromkeys_def)
  ultimately show ?thesis using o by simp
qed

section \<open>Properties of the analyzer's stages\<close>

lemma select_rows_map: "select_rows (map h js) (map p js) = map h (filter p js)"
  by (induction js) (simp_all add: select_rows_def)

lemma select_rows_self: "select_rows rs (map p rs) = filter p rs"
  using select_rows_map [of "\<lambda>r. r" rs p] by simp

lemma traverse_map:
  "(\<And>j. j \<in> set js \<Longrightarrow> f (h j) = Inr (g j)) \<Longrightarrow> traverse f (map h js) = Inr (map g js)"
  by (induction js) simp_all

lemma index_of_Some: "index_of xs x = Some k \<Longrightarrow> k < length xs \<and> xs ! k = x"
  by (induction xs arbitrary: k) (auto split: if_splits)

lemma index_of_None: "index_of xs x = None \<longleftrightarrow> x \<notin> set xs"
  by (induction xs) auto

lemma index_of_nth: "distinct xs \<Longrightarrow> i < length xs \<Longrightarrow> index_of xs (xs ! i) = Some i"
proof (induction xs arbitrary: i)
  case Nil
  then show ?case by simp
next
  case (Cons y ys)
  show ?case
  proof (cases i)
    case 0
    then show ?thesis by simp
  next
    case (Suc j)
    with Cons.prems have "j < length ys" "ys ! j \<in> set ys" "y \<notin> set ys" "distinct ys" by auto
    with Suc Cons.IH [of j] show ?thesis by auto
  qed
qed

lemma check_duplicate_nth:
  assumes "distinct (map fst rs)" "i < length rs"
  shows "check_duplicate rs (rs ! i) = Inr (0 < i \<and> mirror (snd (rs ! i)) (snd (rs ! (i - 1))))"
proof -
  have "index_of (map fst rs) (fst (rs ! i)) = Some i"
    using index_of_nth [of "map fst rs" i] assms by simp
  then show ?thesis by (simp add: check_duplicate_def mirror_def Let_def)
qed

lemma remove_duplicates_positions:
  assumes "distinct (map fst rs)"
  shows "remove_duplicates rs =
     Inr (map (\<lambda>i. rs ! i)
            (filter (\<lambda>i. \<not> (0 < i \<and> mirror (snd (rs ! i)) (snd (rs ! (i - 1))))) [0..<length rs]))"
proof -
  let ?g = "\<lambda>i. 0 < i \<and> mirror (snd (rs ! i)) (snd (rs ! (i - 1)))"
  have rs: "map (\<lambda>i. rs ! i) [0..<length rs] = rs" by (rule map_nth)
  have "traverse (check_duplicate rs) (map (\<lambda>i. rs ! i) [0..<length rs]) = Inr (map ?g [0..<length rs])"
    by (rule traverse_map) (simp add: check_duplicate_nth assms)
  then have t: "traverse (check_duplicate rs) rs = Inr (map ?g [0..<length rs])"
    by (simp only: rs)
  have "select_rows (map (\<lambda>i. rs ! i) [0..<length rs]) (map (\<lambda>i. \<not> ?g i) [0..<length rs])
      = map (\<lambda>i. rs ! i) (filter (\<lambda>i. \<not> ?g i) [0..<length rs])"
    by (rule select_rows_map)
  then have "select_rows rs (map (\<lambda>i. \<not> ?g i) [0..<length rs])
      = map (\<lambda>i. rs ! i) (filter (\<lambda>i. \<not> ?g i) [0..<length rs])"
    by (simp only: rs)
  with t show ?thesis by (simp add: remove_duplicates_def comp_def)
qed

lemma lift_filter_eq:
  "lift_filter neg d rs = filter (\<lambda>row. lift_keeps neg d (snd row)) rs"
  by (simp add: lift_filter_def lift_keeps_def select_rows_self)

lemma progress_total_pos: "0 < n_columns \<Longrightarrow> progress_total n_rows n_columns = Inr n_rows"
  by (simp add: progress_total_def)

lemma progress_total_rule_columns: "progress_total n_rows rule_columns = Inr n_rows"
  by (simp add: progress_total_pos rule_columns_def)

text \<open>
  When both library calls succeed and there is at least one generated rule, the returned
  rules are the generated rules, labelled, after the lift filter and the deduplication
  pass; that pass does not fail.
\<close>

lemma market_basket_analyzer_stages:
  assumes "fpgrowth onehot_df support = Inr fis" "fis \<noteq> []"
    and "association_rules fis (length fis) confidence = Inr generated" "generated \<noteq> []"
  shows "\<exists>rs. remove_duplicates (lift_filter find_negative_correlations lift_distance
                 (zip [0..<length generated] generated)) = Inr rs \<and>
     market_basket_analyzer fpgrowth association_rules onehot_df support confidence
         lift_distance find_negative_correlations
       = ([CallFpgrowth, CallAssociationRules], Inr \<lparr>itemsets = fis, rules = rs\<rparr>)"
proof -
  have "distinct (map fst (lift_filter find_negative_correlations lift_distance
          (zip [0..<length generated] generated)))"
    unfolding lift_filter_eq by (rule distinct_map_filter) simp
  then obtain rs where "remove_duplicates (lift_filter find_negative_correlations lift_distance
          (zip [0..<length generated] generated)) = Inr rs"
    using remove_duplicates_positions by blast
  with assms show ?thesis
    by (simp add: market_basket_analyzer_def progress_total_rule_columns
        columns_after_lift_filter_def)
qed

text \<open>When the rule generator returns no rule, the second progress bar divides by zero.\<close>

lemma market_basket_analyzer_no_rules:
  assumes "fpgrowth onehot_df support = Inr fis" "fis \<noteq> []"
    and "association_rules fis (length fis) confidence = Inr []"
  shows "market_basket_analyzer fpgrowth association_rules onehot_df support confidence
           lift_distance find_negative_correlations
         = ([CallFpgrowth, CallAssociationRules], Inl ZeroDivisionError)"
  using assms
  by (simp add: market_basket_analyzer_def progress_total_def columns_after_lift_filter_def
      rule_columns_def)

lemma mine_example: "mine example_onehot (1/2) = Inr example_itemsets"
  by (simp add: mine_def example_onehot_def itemset_support_def contains_all_def example_itemsets_def)

lemma mine_example_2: "mine example_onehot 2 = Inr []"
  by (simp add: mine_def example_onehot_def itemset_support_def contains_all_def)

lemma generate_example: "generate example_itemsets 3 (1/2) = Inr [example_xy, example_yx]"
  by code_simp

lemma analyzer_example:
  "market_basket_analyzer mine generate example_onehot (1/2) (1/2) (-1) False
     = ([CallFpgrowth, CallAssociationRules],
        Inr \<lparr>itemsets = example_itemsets, rules = [(0, example_xy)]\<rparr>)"
proof -
  have n: "example_itemsets \<noteq> []" "length example_itemsets = 3"
    by (simp_all add: example_itemsets_def)
  have f: "lift_filter False (-1) [(0, example_xy), (Suc 0, example_yx)]
      = [(0, example_xy), (Suc 0, example_yx)]"
    by (simp add: lift_filter_def select_rows_def example_xy_def example_yx_def)
  have r: "remove_duplicates [(0, example_xy), (Suc 0, example_yx)] = Inr [(0, example_xy)]"
    by (simp add: remove_duplicates_def check_duplicate_def select_rows_def example_xy_def example_yx_def)
  show ?thesis
    by (simp add: market_basket_analyzer_def mine_example generate_example n f r
        progress_total_rule_columns columns_after_lift_filter_def)
qed

section \<open>Claims about the analyzer\<close>

text \<open>
  Claim C1, as stated, fails. For the rules \<open>a \<rightarrow> b\<close>, \<open>b \<rightarrow> a\<close>, \<open>a \<rightarrow> b\<close> in
  this order the deduplication pass keeps the first rule only: the third rule is compared
  with the second, which is its mirror, although the second is itself dropped. Comparing
  with the last retained rule, as the claim describes, would keep the third.
\<close>

theorem dedup_surviving_counterexample:
  "remove_duplicates [(0, example_ab), (1, example_ba), (2, example_ab)] = Inr [(0, example_ab)] \<and>
   dedup_surviving None [(0, example_ab), (1, example_ba), (2, example_ab)]
     = [(0, example_ab), (2, example_ab)]"
  by (simp add: remove_duplicates_def check_duplicate_def select_rows_def example_ab_def example_ba_def)

text \<open>
  Claim C1, amended. The rule at position 0 is kept, and the rule at a position \<open>i > 0\<close>
  of the lift-filtered table is dropped if and only if it is the mirror of the rule at
  position \<open>i - 1\<close> of that table, whether or not that rule is retained; the retained
  rules keep their order. The index labels of the table are distinct, as they are after
  \<open>association_rules\<close> and the lift filter.
\<close>

theorem remove_duplicates_adjacent:
  assumes "distinct (map fst rs)"
  shows "remove_duplicates rs =
     Inr (map (\<lambda>i. rs ! i)
            (filter (\<lambda>i. \<not> (0 < i \<and> mirror (snd (rs ! i)) (snd (rs ! (i - 1))))) [0..<length rs]))"
  using assms by (rule remove_duplicates_positions)

theorem remove_duplicates_adjacent_witness:
  "distinct (map fst [(0::nat, example_ab), (1, example_ba), (2, example_ab)]) \<and>
   remove_duplicates [(0, example_ab), (1, example_ba), (2, example_ab)] = Inr [(0, example_ab)]"
proof -
  have d: "distinct (map fst [(0::nat, example_ab), (1, example_ba), (2, example_ab)])"
    by simp
  have m: "mirror example_ba example_ab" "mirror example_ab example_ba"
    by (simp_all add: mirror_def example_ab_def example_ba_def)
  have u: "[0..<3] = [0, 1, 2]" by (simp add: upt_rec)
  show ?thesis using d remove_duplicates_adjacent [OF d] m by (simp add: u)
qed

text \<open>
  Claim C6. The lift filter keeps, in order, exactly the rules whose lift is at least
  \<open>1 + lift_distance\<close> when negative correlations are not asked for, and exactly those
  whose lift is at least \<open>1 + lift_distance\<close> or at most \<open>1 - lift_distance\<close> when
  they are; both bounds are inclusive.
\<close>

theorem lift_filter_survivors:
  "lift_filter include_negative lift_distance rs =
     filter (\<lambda>row. if include_negative
                    then 1 + lift_distance \<le> lift (snd row) \<or> lift (snd row) \<le> 1 - lift_distance
                    else 1 + lift_distance \<le> lift (snd row)) rs"
  by (simp add: lift_filter_def select_rows_self)

theorem lift_filter_survivors_witness:
  "lift_filter True (1/10) [(0, example_ab), (1, example_xy), (2, example_ab\<lparr>lift := 1\<rparr>),
       (3, example_ab\<lparr>lift := 11/10\<rparr>), (4, example_ab\<lparr>lift := 9/10\<rparr>)]
     = [(0, example_ab), (1, example_xy), (3, example_ab\<lparr>lift := 11/10\<rparr>), (4, example_ab\<lparr>lift := 9/10\<rparr>)] \<and>
   lift_filter False (1/10) [(0, example_ab), (1, example_xy), (2, example_ab\<lparr>lift := 1\<rparr>),
       (3, example_ab\<lparr>lift := 11/10\<rparr>), (4, example_ab\<lparr>lift := 9/10\<rparr>)]
     = [(0, example_ab), (3, example_ab\<lparr>lift := 11/10\<rparr>)]"
  using lift_filter_survivors [of True "1/10" "[(0, example_ab), (1, example_xy), (2, example_ab\<lparr>lift := 1\<rparr>),
       (3, example_ab\<lparr>lift := 11/10\<rparr>), (4, example_ab\<lparr>lift := 9/10\<rparr>)]"]
    lift_filter_survivors [of False "1/10" "[(0, example_ab), (1, example_xy), (2, example_ab\<lparr>lift := 1\<rparr>),
       (3, example_ab\<lparr>lift := 11/10\<rparr>), (4, example_ab\<lparr>lift := 9/10\<rparr>)]"]
  by (simp add: example_ab_def example_xy_def)

text \<open>
  Claim C5. When the miner returns no frequent itemset, \<open>market_basket_analyzer\<close>
  returns empty itemsets and empty rules and the only library call it makes is the one
  to the miner, whatever the rule generator is. This is the case in particular when the
  support threshold exceeds 1 and the miner returns itemsets whose supports are at most 1
  and reach the threshold.
\<close>

theorem no_frequent_itemsets_skips_rules:
  fixes support :: "'n::{one,plus,minus,linorder}"
  assumes "fpgrowth onehot_df support = Inr [] \<or>
           (1 < support \<and>
            (\<exists>fis. fpgrowth onehot_df support = Inr fis \<and>
                   list_all (\<lambda>(s, S). support \<le> s \<and> s \<le> 1) fis))"
  shows "market_basket_analyzer fpgrowth association_rules onehot_df support confidence
           lift_distance find_negative_correlations
         = ([CallFpgrowth], Inr \<lparr>itemsets = [], rules = []\<rparr>)"
proof -
  have "fpgrowth onehot_df support = Inr []"
  proof (rule disjE [OF assms])
    assume "1 < support \<and>
        (\<exists>fis. fpgrowth onehot_df support = Inr fis \<and> list_all (\<lambda>(s, S). support \<le> s \<and> s \<le> 1) fis)"
    then obtain fis where s: "1 < support" and f: "fpgrowth onehot_df support = Inr fis"
      and a: "list_all (\<lambda>(s, S). support \<le> s \<and> s \<le> 1) fis" by blast
    have "fis = []"
    proof (cases fis)
      case Nil
      then show ?thesis .
    next
      case (Cons p ps)
      with a have "support \<le> fst p" "fst p \<le> 1" by (auto split: prod.splits)
      with s show ?thesis by simp
    qed
    with f show ?thesis by simp
  qed
  then show ?thesis by (simp add: market_basket_analyzer_def)
qed

theorem no_frequent_itemsets_skips_rules_witness:
  "mine example_onehot 2 = Inr [] \<and>
   market_basket_analyzer mine (\<lambda>fis n c. Inl ValueError) example_onehot 2 (1/2) (1/5) True
     = ([CallFpgrowth], Inr \<lparr>itemsets = [], rules = []\<rparr>) \<and>
   market_basket_analyzer mine generate example_onehot 2 (1/2) (1/5) True
     = ([CallFpgrowth], Inr \<lparr>itemsets = [], rules = []\<rparr>)"
proof -
  have h: "mine example_onehot 2 = Inr [] \<or>
           ((1::rat) < 2 \<and>
            (\<exists>fis. mine example_onehot 2 = Inr fis \<and> list_all (\<lambda>(s, S). 2 \<le> s \<and> s \<le> 1) fis))"
    using mine_example_2 by simp
  show ?thesis
    using mine_example_2 h
      no_frequent_itemsets_skips_rules [of mine example_onehot 2 "\<lambda>fis n c. Inl ValueError" "1/2" "1/5" True]
      no_frequent_itemsets_skips_rules [of mine example_onehot 2 generate "1/2" "1/5" True]
    by simp
qed

text \<open>
  Claim C4, as stated, fails. With a negative \<open>lift_distance\<close>, and support and confidence
  in range, the analyzer calls the miner and the rule generator and returns a result, not
  an error.
\<close>

theorem no_configuration_check_counterexample:
  "\<not> valid_config (1/2) (1/2) (-1) \<and>
   fst (market_basket_analyzer mine generate example_onehot (1/2) (1/2) (-1) False)
     = [CallFpgrowth, CallAssociationRules] \<and>
   \<not> isl (snd (market_basket_analyzer mine generate example_onehot (1/2) (1/2) (-1) False))"
  by (simp add: analyzer_example valid_config_def)

text \<open>
  Claim C4, amended. \<open>market_basket_analyzer\<close> checks none of its thresholds and has no
  configuration error. For every support, confidence and lift distance, in range or not,
  and whenever the rule generator does not return an empty rule table, it raises an error
  exactly when the miner raises that error, or the miner returns itemsets and the rule
  generator raises it; otherwise it returns a result.
\<close>

theorem errors_only_from_library:
  assumes "\<not> (\<exists>fis. fpgrowth onehot_df support = Inr fis \<and> fis \<noteq> [] \<and>
                  association_rules fis (length fis) confidence = Inr [])"
  shows "snd (market_basket_analyzer fpgrowth association_rules onehot_df support confidence
          lift_distance find_negative_correlations) = Inl e \<longleftrightarrow>
   fpgrowth onehot_df support = Inl e \<or>
   (\<exists>fis. fpgrowth onehot_df support = Inr fis \<and> fis \<noteq> [] \<and>
          association_rules fis (length fis) confidence = Inl e)"
proof (cases "fpgrowth onehot_df support")
  case (Inl e')
  then show ?thesis by (simp add: market_basket_analyzer_def)
next
  case (Inr fis)
  show ?thesis
  proof (cases "fis = []")
    case True
    with Inr show ?thesis by (simp add: market_basket_analyzer_def)
  next
    case False
    show ?thesis
    proof (cases "association_rules fis (length fis) confidence")
      case (Inl e')
      with Inr False show ?thesis by (simp add: market_basket_analyzer_def)
    next
      case gen: (Inr generated)
      with Inr False assms have ne: "generated \<noteq> []" by auto
      from market_basket_analyzer_stages [of fpgrowth onehot_df support fis association_rules
          confidence generated find_negative_correlations lift_distance] Inr False gen ne
      obtain rs where "market_basket_analyzer fpgrowth association_rules onehot_df support
          confidence lift_distance find_negative_correlations
        = ([CallFpgrowth, CallAssociationRules], Inr \<lparr>itemsets = fis, rules = rs\<rparr>)"
        by blast
      with Inr False gen show ?thesis by simp
    qed
  qed
qed

theorem errors_only_from_library_witness:
  "snd (market_basket_analyzer mine generate example_onehot (1/2) (1/2) (-1) False) \<noteq> Inl ValueError \<and>
   snd (market_basket_analyzer mine (\<lambda>fis n c. Inl ValueError) example_onehot (1/2) (1/2) (-1) False)
     = Inl ValueError"
proof -
  have n: "example_itemsets \<noteq> []" "length example_itemsets = 3"
    by (simp_all add: example_itemsets_def)
  have h1: "\<not> (\<exists>fis. mine example_onehot (1/2) = Inr fis \<and> fis \<noteq> [] \<and>
                  generate fis (length fis) (1/2) = Inr [])"
    by (simp add: mine_example generate_example n)
  have h2: "\<not> (\<exists>fis. mine example_onehot (1/2) = Inr fis \<and> fis \<noteq> [] \<and>
                  (\<lambda>fis n c. Inl ValueError) fis (length fis) (1/2) = Inr [])"
    by simp
  show ?thesis
    using errors_only_from_library [of mine example_onehot "1/2" generate "1/2" "-1" False ValueError]
      errors_only_from_library [of mine example_onehot "1/2" "\<lambda>fis n c. Inl ValueError" "1/2" "-1" False ValueError]
      h1 h2
    by (simp add: mine_example generate_example n)
qed

section \<open>Properties of the transaction builder\<close>

lemma fromkeys_from_prefix: "\<exists>ext. fromkeys_from seen xs = seen @ ext"
proof (induction xs arbitrary: seen)
  case Nil
  then show ?case by simp
next
  case (Cons x xs)
  show ?case
  proof (cases "x \<in> set seen")
    case True
    with Cons.IH [of seen] show ?thesis by simp
  next
    case False
    from Cons.IH [of "seen @ [x]"] obtain ext where "fromkeys_from (seen @ [x]) xs = (seen @ [x]) @ ext" ..
    with False show ?thesis by simp
  qed
qed

lemma fromkeys_from_append:
  "fromkeys_from seen (xs @ ys) = fromkeys_from (fromkeys_from seen xs) ys"
  by (induction xs arbitrary: seen) simp_all

lemma class_mapping_get_fromkeys:
  assumes "class_mapping_get cm l = (cm', k)"
  shows "cm' = fromkeys_from cm [l]" and "k < length cm'" and "cm' ! k = l"
  using assms
  by (auto simp: class_mapping_get_def index_of_None nth_append dest: index_of_Some split: option.splits)

lemma row_index_extend:
  assumes "distinct (cm @ ext)" "set labels \<subseteq> set cm"
  shows "row_index (cm @ ext) labels = row_index cm labels"
proof -
  have "k < length cm" if k: "k < length (cm @ ext)" "(cm @ ext) ! k \<in> set labels" for k
  proof (rule ccontr)
    assume "\<not> k < length cm"
    with k have "(cm @ ext) ! k \<in> set ext" by (simp add: nth_append)
    moreover from k assms(2) have "(cm @ ext) ! k \<in> set cm" by auto
    ultimately show False using assms(1) by auto
  qed
  note inside = this
  show ?thesis
  proof (rule set_eqI)
    fix k
    show "k \<in> row_index (cm @ ext) labels \<longleftrightarrow> k \<in> row_index cm labels"
    proof
      assume "k \<in> row_index (cm @ ext) labels"
      then have k: "k < length (cm @ ext)" "(cm @ ext) ! k \<in> set labels"
        by (simp_all add: row_index_def)
      then have "k < length cm" by (rule inside)
      with k(2) show "k \<in> row_index cm labels" by (simp add: row_index_def nth_append)
    next
      assume "k \<in> row_index cm labels"
      then show "k \<in> row_index (cm @ ext) labels" by (simp add: row_index_def nth_append)
    qed
  qed
qed

lemma row_index_Cons:
  assumes "distinct cm" "k < length cm" "cm ! k = l"
  shows "row_index cm (l # labels) = insert k (row_index cm labels)"
  using assms by (auto simp: row_index_def nth_eq_iff_index_eq)

lemma transform_labels_inv:
  "transform_labels cm labels = (cm', index) \<Longrightarrow> distinct cm \<Longrightarrow>
     cm' = fromkeys_from cm labels \<and> index = row_index cm' labels"
proof (induction labels arbitrary: cm cm' index)
  case Nil
  then show ?case by (simp add: row_index_def)
next
  case (Cons l labels)
  obtain cm1 k where g: "class_mapping_get cm l = (cm1, k)" by (cases "class_mapping_get cm l")
  obtain cm2 ix where t: "transform_labels cm1 labels = (cm2, ix)" by (cases "transform_labels cm1 labels")
  note g' = class_mapping_get_fromkeys [OF g]
  have d1: "distinct cm1" using Cons.prems(2) g'(1) by (simp add: distinct_fromkeys_from)
  from Cons.IH [OF t d1] have ih: "cm2 = fromkeys_from cm1 labels" "ix = row_index cm2 labels" by simp_all
  from Cons.prems(1) g t have r: "cm' = cm2" "index = insert k ix" by simp_all
  have d2: "distinct cm2" using d1 ih(1) by (simp add: distinct_fromkeys_from)
  obtain ext where e: "cm2 = cm1 @ ext" using fromkeys_from_prefix [of cm1 labels] ih(1) by auto
  have k2: "k < length cm2" "cm2 ! k = l" using g'(2,3) e by (simp_all add: nth_append)
  have "cm2 = fromkeys_from cm (l # labels)"
    using ih(1) g'(1) fromkeys_from_append [of cm "[l]" labels] by simp
  moreover have "insert k ix = row_index cm2 (l # labels)"
    using row_index_Cons [OF d2 k2] ih(2) by simp
  ultimately show ?case using r by simp
qed

lemma transform_inv:
  "transform cm y = (cm', yt) \<Longrightarrow> distinct cm \<Longrightarrow>
     cm' = fromkeys_from cm (concat y) \<and> yt = map (row_index cm') y"
proof (induction y arbitrary: cm cm' yt)
  case Nil
  then show ?case by simp
next
  case (Cons labels y)
  obtain cm1 ix where l: "transform_labels cm labels = (cm1, ix)" by (cases "transform_labels cm labels")
  obtain cm2 yt2 where t: "transform cm1 y = (cm2, yt2)" by (cases "transform cm1 y")
  from transform_labels_inv [OF l Cons.prems(2)]
  have l': "cm1 = fromkeys_from cm labels" "ix = row_index cm1 labels" by simp_all
  have d1: "distinct cm1" using Cons.prems(2) l'(1) by (simp add: distinct_fromkeys_from)
  from Cons.IH [OF t d1] have ih: "cm2 = fromkeys_from cm1 (concat y)" "yt2 = map (row_index cm2) y"
    by simp_all
  from Cons.prems(1) l t have r: "cm' = cm2" "yt = ix # yt2" by simp_all
  have d2: "distinct cm2" using d1 ih(1) by (simp add: distinct_fromkeys_from)
  obtain ext where e: "cm2 = cm1 @ ext" using fromkeys_from_prefix [of cm1 "concat y"] ih(1) by auto
  have "set labels \<subseteq> set cm1" using l'(1) by (simp add: set_fromkeys_from)
  then have "row_index cm2 labels = row_index cm1 labels"
    using row_index_extend [of cm1 ext labels] d2 e by simp
  moreover have "cm2 = fromkeys_from cm (concat (labels # y))"
    using ih(1) l'(1) by (simp add: fromkeys_from_append)
  ultimately show ?case using r l'(2) ih(2) by simp
qed

lemma transform_first_encounter:
  "transform [] y = (first_encounter_order y, map (row_index (first_encounter_order y)) y)"
proof -
  obtain cm yt where t: "transform [] y = (cm, yt)" by (cases "transform [] y")
  from transform_inv [OF t] show ?thesis using t by (simp add: first_encounter_order_def fromkeys_def)
qed

lemma position_nth: "distinct xs \<Longrightarrow> j < length xs \<Longrightarrow> position xs (xs ! j) = j"
proof (induction xs arbitrary: j)
  case Nil
  then show ?case by simp
next
  case (Cons x xs)
  show ?case
  proof (cases j)
    case 0
    then show ?thesis by (simp add: position_def)
  next
    case (Suc i)
    with Cons.prems have "i < length xs" "xs ! i \<noteq> x" "distinct xs" by auto
    with Cons.IH [of i] Suc show ?thesis by (simp add: position_def)
  qed
qed

lemma position_in: "x \<in> set xs \<Longrightarrow> position xs x < length xs \<and> xs ! position xs x = x"
  by (induction xs) (auto simp: position_def)

lemma dense_entry:
  fixes cm :: "'a::linorder list"
  assumes d: "distinct cm" and j: "j < length (sort cm)"
  shows "j \<in> (\<lambda>k. map (position (sort cm)) cm ! k) ` row_index cm labels
         \<longleftrightarrow> sort cm ! j \<in> set labels"
proof
  assume "j \<in> (\<lambda>k. map (position (sort cm)) cm ! k) ` row_index cm labels"
  then obtain k where k: "k < length cm" "cm ! k \<in> set labels" "j = position (sort cm) (cm ! k)"
    by (auto simp: row_index_def)
  have "cm ! k \<in> set (sort cm)" using k(1) by simp
  then have "sort cm ! j = cm ! k" using k(3) position_in by metis
  with k(2) show "sort cm ! j \<in> set labels" by simp
next
  assume a: "sort cm ! j \<in> set labels"
  have "sort cm ! j \<in> set cm" using j by (metis nth_mem set_sort)
  then obtain k where k: "k < length cm" "cm ! k = sort cm ! j" by (auto simp: in_set_conv_nth)
  have "position (sort cm) (cm ! k) = j"
    using position_nth [of "sort cm" j] d j k(2) by simp
  with k a show "j \<in> (\<lambda>k. map (position (sort cm)) cm ! k) ` row_index cm labels"
    by (auto simp: row_index_def image_iff intro!: bexI [of _ k])
qed

lemma fit_transform_eq:
  "fit_transform y =
     (sort (first_encounter_order y),
      map (\<lambda>labels. map (\<lambda>c. c \<in> set labels) (sort (first_encounter_order y))) y)"
proof -
  let ?cm = "first_encounter_order y"
  have d: "distinct ?cm" by (simp add: first_encounter_order_def distinct_fromkeys)
  have row: "map (\<lambda>j. j \<in> (\<lambda>k. map (position (sort ?cm)) ?cm ! k) ` row_index ?cm labels)
                [0..<length (sort ?cm)]
             = map (\<lambda>c. c \<in> set labels) (sort ?cm)" for labels
  proof (rule nth_equalityI)
    show "length (map (\<lambda>j. j \<in> (\<lambda>k. map (position (sort ?cm)) ?cm ! k) ` row_index ?cm labels)
                [0..<length (sort ?cm)]) = length (map (\<lambda>c. c \<in> set labels) (sort ?cm))"
      by simp
  next
    fix j
    assume "j < length (map (\<lambda>j. j \<in> (\<lambda>k. map (position (sort ?cm)) ?cm ! k) ` row_index ?cm labels)
                [0..<length (sort ?cm)])"
    then have j: "j < length (sort ?cm)" by simp
    with dense_entry [OF d j, of labels]
    show "map (\<lambda>j. j \<in> (\<lambda>k. map (position (sort ?cm)) ?cm ! k) ` row_index ?cm labels)
                [0..<length (sort ?cm)] ! j = map (\<lambda>c. c \<in> set labels) (sort ?cm) ! j"
      by simp
  qed
  have r: "remdups ?cm = ?cm" using d by (rule distinct_remdups_id)
  have row': "map (\<lambda>j. j \<in> (\<lambda>k. map (position (sort ?cm)) ?cm ! k) ` row_index ?cm labels)
                [0..<length ?cm]
             = map (\<lambda>c. c \<in> set labels) (sort ?cm)" for labels
    using row [of labels] by simp
  show ?thesis
    by (simp add: fit_transform_def transform_first_encounter r row' Let_def)
qed

lemma onehot_eq:
  "onehot ts = \<lparr>columns = sort (first_encounter_order ts),
      matrix = map (\<lambda>labels. map (\<lambda>c. c \<in> set labels) (sort (first_encounter_order ts))) ts\<rparr>"
  by (simp add: onehot_def fit_transform_eq)

lemma set_first_encounter_order: "set (first_encounter_order ts) = \<Union>(set ` set ts)"
  by (simp add: first_encounter_order_def set_fromkeys)

lemma distinct_first_encounter_order: "distinct (first_encounter_order ts)"
  by (simp add: first_encounter_order_def distinct_fromkeys)

lemma word_items_example: "word_items (PyStr [98, 32, 97]) = [[98], [97]]"
  by (simp add: word_items_def split_def isspace_def)

lemma onehot_example: "onehot [[[98], [97::nat]]] = \<lparr>columns = [[97], [98]], matrix = [[True, True]]\<rparr>"
  by (simp add: onehot_eq first_encounter_order_def fromkeys_def)

lemma map_of_count_item:
  "map_of (count_item c x) = (map_of c)(x \<mapsto> (case map_of c x of None \<Rightarrow> 0 | Some n \<Rightarrow> n) + 1)"
  by (simp add: count_item_def update_conv')

lemma distinct_count_item: "distinct (map fst c) \<Longrightarrow> distinct (map fst (count_item c x))"
  by (simp add: count_item_def distinct_update)

lemma map_of_fold_count_item:
  "map_of (fold (\<lambda>item counts. count_item counts item) xs c) item =
     (if count_list xs item = 0 then map_of c item
      else Some ((case map_of c item of None \<Rightarrow> 0 | Some n \<Rightarrow> n) + count_list xs item))"
proof (induction xs arbitrary: c)
  case Nil
  then show ?case by simp
next
  case (Cons x xs)
  show ?case
    by (simp add: Cons.IH map_of_count_item split: option.splits)
qed

lemma distinct_fold_count_item:
  "distinct (map fst c) \<Longrightarrow> distinct (map fst (fold (\<lambda>item counts. count_item counts item) xs c))"
  by (induction xs arbitrary: c) (simp_all add: distinct_count_item)

lemma fold_fold_concat: "fold (fold f) xss s = fold f (concat xss) s"
  by (induction xss arbitrary: s) simp_all

lemma item_counts_of_concat:
  "item_counts_of ts = fold (\<lambda>item counts. count_item counts item) (concat ts) []"
  by (simp add: item_counts_of_def fold_fold_concat)

lemma map_of_item_counts_of:
  "map_of (item_counts_of ts) item =
     (if count_list (concat ts) item = 0 then None else Some (count_list (concat ts) item))"
  by (simp add: item_counts_of_concat map_of_fold_count_item)

lemma distinct_item_counts_of: "distinct (map fst (item_counts_of ts))"
  by (simp add: item_counts_of_concat distinct_fold_count_item)

lemma frequent_items_of_iff:
  "distinct (map fst counts) \<Longrightarrow>
     item \<in> frequent_items_of counts mc \<longleftrightarrow> (\<exists>n. map_of counts item = Some n \<and> mc \<le> int n)"
  by (force simp: frequent_items_of_def)

lemma frequent_items_of_counts:
  "item \<in> frequent_items_of (item_counts_of ts) mc \<longleftrightarrow>
     count_list (concat ts) item \<noteq> 0 \<and> mc \<le> int (count_list (concat ts) item)"
  by (simp add: frequent_items_of_iff distinct_item_counts_of map_of_item_counts_of)

lemma pyint_le_iff: "0 < n \<Longrightarrow> pyint x \<le> int n \<longleftrightarrow> \<lfloor>x\<rfloor> \<le> int n"
proof (cases "0 \<le> x")
  case True
  then show ?thesis by (simp add: pyint_def)
next
  case False
  assume "0 < n"
  from False have "\<lceil>x\<rceil> \<le> 0" by simp
  with \<open>0 < n\<close> have c: "\<lceil>x\<rceil> \<le> int n" by linarith
  from False have "\<lfloor>x\<rfloor> \<le> 0" by simp
  with \<open>0 < n\<close> have f: "\<lfloor>x\<rfloor> \<le> int n" by linarith
  from c f False show ?thesis by (simp add: pyint_def)
qed

text \<open>Both builders return the one-hot table of one transaction per record read.\<close>

lemma traverse_length: "traverse f xs = Inr ys \<Longrightarrow> length ys = length xs"
  by (induction xs arbitrary: ys) (auto split: sum.splits)

lemma prepare_emoji_word_data_result:
  assumes "prepare_emoji_word_data E fl test_mode min_support data = Inr df"
  shows "\<exists>ts. length ts = length (if test_mode then take 100 data else data) \<and>
              df = onehot (filtered_transactions fl min_support ts)"
proof -
  let ?data = "if test_mode then take 100 data else data"
  from assms obtain pc where t: "traverse (unique_vals E) ?data = Inr pc"
    and d: "df = onehot (filtered_transactions fl min_support (map word_items pc))"
    by (auto simp: prepare_emoji_word_data_def Let_def split: sum.splits if_splits)
  from traverse_length [OF t] have "length (map word_items pc) = length ?data" by simp
  with d show ?thesis by blast
qed

lemma prepare_emoji_data_result:
  assumes "prepare_emoji_data E set_order test_mode data = Inr df"
  shows "\<exists>ts. length ts = (if test_mode then min 100 (length data) else length data) \<and>
              df = onehot ts"
proof -
  from assms obtain es where t: "traverse (emoji_only E) data = Inr es"
    and d: "df = onehot (map (emoji_items set_order) (if test_mode then take 100 es else es))"
    by (auto simp: prepare_emoji_data_def Let_def split: sum.splits if_splits)
  from traverse_length [OF t] have "length es = length data" .
  then have "length (map (emoji_items set_order) (if test_mode then take 100 es else es))
      = (if test_mode then min 100 (length data) else length data)"
    by (simp add: min.commute)
  with d show ?thesis by blast
qed

lemma filtered_example:
  "filtered_transactions id 0 [[[98], [97::nat]]] = [[[98], [97]]]"
  by (simp add: filtered_transactions_def item_counts_of_def count_item_def min_count_of_def
      pyint_def frequent_items_of_def)

section \<open>Claims about the transaction builder\<close>

text \<open>
  Claim C2, as stated, fails. For the single record \<open>b a\<close> the word builder meets \<open>b\<close>
  first and \<open>a\<close> second, and the returned matrix has its columns in the order \<open>a\<close>,
  \<open>b\<close>: the binarizer sorts its classes.
\<close>

theorem first_encounter_counterexample:
  "prepare_emoji_word_data {} id False 0 [PyStr [98, 32, 97]]
     = Inr \<lparr>columns = [[97], [98]], matrix = [[True, True]]\<rparr> \<and>
   word_items (PyStr [98, 32, 97]) = [[98], [97]] \<and>
   first_encounter_order [[[98], [97::nat]]] = [[98], [97]]"
proof -
  have u: "process_text {} (PyStr [98, 32, 97]) = [98, 32, 97]"
    by (simp add: split_def isspace_def process_word_def is_emoji_def fromkeys_def)
  have e: "first_encounter_order [[[98], [97::nat]]] = [[98], [97]]"
    by (simp add: first_encounter_order_def fromkeys_def)
  show ?thesis
    by (simp add: prepare_emoji_word_data_def u word_items_example filtered_example
          onehot_example e del: process_text.simps)
qed

text \<open>
  Claim C2, amended. The columns of the presence matrix are the vocabulary in ascending
  sorted order, that is the first-encounter sequence of the items, sorted; the rows are in
  input transaction order, row \<open>t\<close> holding for each column whether its item is in
  transaction \<open>t\<close>.
\<close>

theorem onehot_order:
  fixes ts :: "'a::linorder list list"
  shows "columns (onehot ts) = sort (first_encounter_order ts) \<and>
    matrix (onehot ts)
      = map (\<lambda>transaction. map (\<lambda>item. item \<in> set transaction) (columns (onehot ts))) ts"
  by (simp add: onehot_eq)

theorem onehot_order_witness:
  "columns (onehot [[[98], [97::nat]], [], [[97]]]) = [[97], [98]] \<and>
   matrix (onehot [[[98], [97::nat]], [], [[97]]]) = [[True, True], [False, False], [True, False]]"
proof -
  have e: "first_encounter_order [[[98], [97::nat]], [], [[97]]] = [[98], [97]]"
    by (simp add: first_encounter_order_def fromkeys_def)
  show ?thesis
    using onehot_order [of "[[[98], [97::nat]], [], [[97]]]"] by (simp add: e)
qed

text \<open>
  Claim C8. The presence matrix has one row for each transaction and one entry for each
  column in every row; the entry of row \<open>t\<close> and column \<open>j\<close> is true if and only if the
  item of column \<open>j\<close> is a member of transaction \<open>t\<close>, and every item of a transaction
  has a column.
\<close>

theorem onehot_presence:
  fixes ts :: "'a::linorder list list"
  shows "length (matrix (onehot ts)) = length ts \<and>
    (\<forall>t < length ts.
       length (matrix (onehot ts) ! t) = length (columns (onehot ts)) \<and>
       set (ts ! t) \<subseteq> set (columns (onehot ts)) \<and>
       (\<forall>j < length (columns (onehot ts)).
          matrix (onehot ts) ! t ! j \<longleftrightarrow> columns (onehot ts) ! j \<in> set (ts ! t)))"
proof -
  have "set (ts ! t) \<subseteq> set (first_encounter_order ts)" if "t < length ts" for t
  proof -
    from that have "ts ! t \<in> set ts" by (rule nth_mem)
    then show ?thesis unfolding set_first_encounter_order by blast
  qed
  then show ?thesis by (simp add: onehot_eq)
qed

theorem onehot_presence_witness:
  "matrix (onehot [[[120], [121::nat]], [[121]]]) ! 1 ! 0 = False \<and>
   matrix (onehot [[[120], [121::nat]], [[121]]]) ! 1 ! 1 = True \<and>
   columns (onehot [[[120], [121::nat]], [[121]]]) = [[120], [121]]"
proof -
  have c: "columns (onehot [[[120], [121::nat]], [[121]]]) = [[120], [121]]"
    by (simp add: onehot_eq first_encounter_order_def fromkeys_def)
  from onehot_presence [of "[[[120], [121::nat]], [[121]]]"]
  have "\<forall>j < length (columns (onehot [[[120], [121::nat]], [[121]]])).
          matrix (onehot [[[120], [121::nat]], [[121]]]) ! 1 ! j
            \<longleftrightarrow> columns (onehot [[[120], [121::nat]], [[121]]]) ! j \<in> set ([[[120], [121::nat]], [[121]]] ! 1)"
    by simp
  then have "\<forall>j < 2. matrix (onehot [[[120], [121::nat]], [[121]]]) ! 1 ! j
            \<longleftrightarrow> [[120], [121::nat]] ! j \<in> {[121]}"
    by (simp add: c)
  then have "matrix (onehot [[[120], [121::nat]], [[121]]]) ! 1 ! 0 \<longleftrightarrow> [[120], [121::nat]] ! 0 \<in> {[121]}"
    and "matrix (onehot [[[120], [121::nat]], [[121]]]) ! 1 ! 1 \<longleftrightarrow> [[120], [121::nat]] ! 1 \<in> {[121]}"
    by simp_all
  with c show ?thesis by simp
qed

text \<open>
  Claim C9. The columns of the one-hot DataFrame are exactly the distinct items that occur
  in the transactions it is built from, in ascending sorted order and without repetition.
\<close>

theorem onehot_columns_sorted:
  fixes ts :: "'a::linorder list list"
  shows "columns (onehot ts) = sorted_list_of_set (\<Union>(set ` set ts)) \<and>
         sorted (columns (onehot ts)) \<and> distinct (columns (onehot ts)) \<and>
         set (columns (onehot ts)) = \<Union>(set ` set ts)"
proof -
  let ?cs = "sort (first_encounter_order ts)"
  have c: "columns (onehot ts) = ?cs" by (simp add: onehot_eq)
  have s: "sorted ?cs" by simp
  have d: "distinct ?cs" by (simp add: distinct_first_encounter_order)
  have e: "set ?cs = \<Union>(set ` set ts)" by (simp add: set_first_encounter_order)
  have f: "finite (\<Union>(set ` set ts))" by simp
  have "sorted (sorted_list_of_set (\<Union>(set ` set ts)))"
    and "distinct (sorted_list_of_set (\<Union>(set ` set ts)))"
    and "set (sorted_list_of_set (\<Union>(set ` set ts))) = set ?cs"
    using e f by simp_all
  with s d have "?cs = sorted_list_of_set (\<Union>(set ` set ts))"
    by (intro sorted_distinct_set_unique) simp_all
  with c s d e show ?thesis by simp
qed

theorem onehot_columns_sorted_witness:
  "columns (onehot [[[98], [97::nat]], [[98, 1]], [[97]]]) = [[97], [98], [98, 1]]"
proof -
  have "sorted_list_of_set (\<Union>(set ` set [[[98], [97::nat]], [[98, 1]], [[97]]])) = [[97], [98], [98, 1]]"
    by code_simp
  with onehot_columns_sorted [of "[[[98], [97::nat]], [[98, 1]], [[97]]]"] show ?thesis by simp
qed

text \<open>
  Claim C7. With \<open>min_count\<close> the floor of \<open>min_support\<close> times the number of
  transactions, the word builder keeps in every transaction exactly the items whose
  number of occurrences over all transactions is at least \<open>min_count\<close>, in their order;
  no transaction is removed or moved, also when it becomes empty.
\<close>

theorem filtered_transactions_prune:
  "filtered_transactions fl min_support ts =
     map (filter (\<lambda>item. \<lfloor>fl (min_support * of_nat (length ts))\<rfloor>
                            \<le> int (count_list (concat ts) item))) ts \<and>
   length (filtered_transactions fl min_support ts) = length ts"
proof -
  let ?mc = "min_count_of fl min_support (length ts)"
  have keep: "item \<in> frequent_items_of (item_counts_of ts) ?mc \<longleftrightarrow>
        \<lfloor>fl (min_support * of_nat (length ts))\<rfloor> \<le> int (count_list (concat ts) item)"
    if "transaction \<in> set ts" "item \<in> set transaction" for transaction item
  proof -
    from that have "item \<in> set (concat ts)" by auto
    then have "count_list (concat ts) item \<noteq> 0" by (simp only: count_list_0_iff not_not)
    then have pos: "0 < count_list (concat ts) item" by simp
    then show ?thesis
      by (simp add: frequent_items_of_counts min_count_of_def pyint_le_iff)
  qed
  have "filtered_transactions fl min_support ts =
     map (filter (\<lambda>item. \<lfloor>fl (min_support * of_nat (length ts))\<rfloor>
                            \<le> int (count_list (concat ts) item))) ts"
    unfolding filtered_transactions_def Let_def
    by (rule map_cong [OF refl], rule filter_cong [OF refl]) (simp add: keep)
  then show ?thesis by simp
qed

theorem filtered_transactions_prune_witness:
  "filtered_transactions (\<lambda>x. x) (2/3) [[[97], [98]], [[98]], [[99::nat]]] = [[[98]], [[98]], []] \<and>
   \<lfloor>(2/3 :: rat) * of_nat (length [[[97], [98]], [[98]], [[99::nat]]])\<rfloor> = 2"
proof -
  have c: "concat [[[97], [98]], [[98]], [[99::nat]]] = [[97], [98], [98], [99]]" by simp
  have f: "\<lfloor>(2/3 :: rat) * of_nat (length [[[97], [98]], [[98]], [[99::nat]]])\<rfloor> = 2" by simp
  show ?thesis
    using filtered_transactions_prune [of "\<lambda>x. x" "2/3" "[[[97], [98]], [[98]], [[99::nat]]]"]
    unfolding c f by simp
qed

end
